theory Spec2Isabelle
  imports Main "HOL-Library.Word"
begin

section \<open>GATT remote service manager (remote\_service\_manager.cc)\<close>

text \<open>
  A shallow embedding of \<^verbatim>\<open>bt::gatt::internal::RemoteServiceManager\<close>. The manager's
  fields are a record, the weak pointer \<^verbatim>\<open>self\<close> of every closure is the optional
  manager of the world (\<open>None\<close> once the destructor has run), and every call that
  leaves the manager (a user callback, a method of a service, a request to the ATT
  client) is appended to a trace in program order. The write to \<^verbatim>\<open>initialized_\<close> is
  logged in the same trace, so that its position among the callbacks can be read off.
\<close>

subsection \<open>Data\<close>

type_synonym handle = "16 word"   \<comment> \<open>\<^verbatim>\<open>att::Handle\<close>, an unsigned 16-bit integer\<close>
type_synonym uuid = "128 word"    \<comment> \<open>\<^verbatim>\<open>UUID\<close>, compared by value\<close>
type_synonym byte_buffer = "8 word list"
type_synonym callback_id = nat    \<comment> \<open>names the closure a caller passed in\<close>

datatype ServiceKind = PRIMARY | SECONDARY

text \<open>
  Modelled from the spec: \<^verbatim>\<open>att::Status\<close>, \<^verbatim>\<open>HostError\<close> and \<^verbatim>\<open>att::ErrorCode\<close> are declared
  outside the files at hand. A status is success, a host error or a protocol error that
  carries an ATT error code; the spec singles out the code "unsupported group type"
  and the generic host failure. The other constructors stand for any other error.
\<close>

datatype HostError = kFailed | kTimedOut | kLinkDisconnected | kNotSupported

datatype ErrorCode = kInvalidHandle | kRequestNotSupported | kAttributeNotFound
  | kUnsupportedGroupType | kInsufficientResources

datatype Status = Success | HostErr HostError | ProtocolErr ErrorCode

fun is_success :: "Status \<Rightarrow> bool" where
  "is_success Success = True"
| "is_success _ = False"

fun is_protocol_error :: "Status \<Rightarrow> bool" where
  "is_protocol_error (ProtocolErr _) = True"
| "is_protocol_error _ = False"

text \<open>\<^verbatim>\<open>bt_is_error(status, ...)\<close> logs and returns whether the status is a failure.\<close>

definition bt_is_error :: "Status \<Rightarrow> bool" where
  "bt_is_error status = (\<not> is_success status)"

text \<open>
  Modelled from the spec: \<^verbatim>\<open>ServiceData\<close> and \<^verbatim>\<open>RemoteService\<close> are declared outside the
  files at hand. A service record exposes its UUID, its handle range and two
  operations (deliver a notification, shut down) whose calls the trace records.
\<close>

record ServiceData =
  kind :: ServiceKind
  range_start :: handle
  range_end :: handle
  type :: uuid

datatype RemoteService = RemoteService (info: ServiceData)

definition handle :: "RemoteService \<Rightarrow> handle" where
  "handle svc = range_start (info svc)"

definition uuid :: "RemoteService \<Rightarrow> uuid" where
  "uuid svc = type (info svc)"

type_synonym ServiceMap = "(handle \<times> RemoteService) list"
  \<comment> \<open>\<^verbatim>\<open>std::map<att::Handle, fbl::RefPtr<RemoteService>>\<close>: the entries in key order\<close>

type_synonym ServiceList = "RemoteService list"

text \<open>
  A name cannot end in an underscore here, so the members \<^verbatim>\<open>callback_\<close>, \<^verbatim>\<open>uuids_\<close>,
  \<^verbatim>\<open>services_\<close>, \<^verbatim>\<open>pending_\<close>, \<^verbatim>\<open>initialized_\<close> and \<^verbatim>\<open>svc_watcher_\<close> lose theirs.
\<close>

record ServiceListRequest =
  callback :: callback_id
  uuids :: "uuid list"

record RemoteServiceManager =
  services :: ServiceMap
  pending :: "ServiceListRequest list"   \<comment> \<open>\<^verbatim>\<open>std::queue\<close>, front first\<close>
  initialized :: bool
  svc_watcher :: "callback_id option"

text \<open>What the manager does to the outside, and the write to the flag.\<close>

datatype event =
    ListCallback callback_id Status ServiceList   \<comment> \<open>\<^verbatim>\<open>callback_(status, result)\<close>\<close>
  | UserInitCallback callback_id Status           \<comment> \<open>\<^verbatim>\<open>user_init_cb(status)\<close>\<close>
  | WatcherCall callback_id RemoteService         \<comment> \<open>\<^verbatim>\<open>svc_watcher_(svc)\<close>\<close>
  | ShutDown RemoteService                        \<comment> \<open>\<^verbatim>\<open>svc->ShutDown()\<close>\<close>
  | HandleNotification RemoteService handle byte_buffer
  | InitializedSet                                \<comment> \<open>\<^verbatim>\<open>self->initialized_ = true\<close>\<close>
  | ClientSetNotificationHandler bool
  | ClientExchangeMTU
  | ClientDiscoverServices ServiceKind
  | ClientDiscoverServicesWithUuids ServiceKind "uuid list"

subsection \<open>The ordered map\<close>

text \<open>\<^verbatim>\<open>services_.find(handle)\<close>: the entry with that key, if any.\<close>

fun map_find :: "handle \<Rightarrow> ServiceMap \<Rightarrow> RemoteService option" where
  "map_find h [] = None"
| "map_find h (e # es) = (if fst e = h then Some (snd e) else map_find h es)"

text \<open>\<^verbatim>\<open>services_[handle] = svc\<close>: store under the key, keeping the key order.\<close>

fun map_assign :: "handle \<Rightarrow> RemoteService \<Rightarrow> ServiceMap \<Rightarrow> ServiceMap" where
  "map_assign h svc [] = [(h, svc)]"
| "map_assign h svc (e # es) =
     (if fst e = h then (h, svc) # es
      else if h < fst e then (h, svc) # e # es
      else e # map_assign h svc es)"

text \<open>
  \<^verbatim>\<open>services_.upper_bound(value_handle)\<close>: the position of the first entry whose key is
  greater than the handle; the length of the map stands for \<^verbatim>\<open>end()\<close>, 0 for \<^verbatim>\<open>begin()\<close>.
\<close>

fun upper_bound :: "handle \<Rightarrow> ServiceMap \<Rightarrow> nat" where
  "upper_bound v [] = 0"
| "upper_bound v (e # es) = (if v < fst e then 0 else Suc (upper_bound v es))"

subsection \<open>ServiceListRequest::Complete\<close>

text \<open>The loop over the map, \<^verbatim>\<open>result\<close> as the accumulator, \<^verbatim>\<open>std::find_if\<close> as \<open>find\<close>.\<close>

fun Complete_loop :: "uuid list \<Rightarrow> ServiceMap \<Rightarrow> ServiceList \<Rightarrow> ServiceList" where
  "Complete_loop us [] result = result"
| "Complete_loop us (iter # rest) result =
     Complete_loop us rest
       (if us = [] \<or> find (\<lambda>u. uuid (snd iter) = u) us \<noteq> None
        then result @ [snd iter] else result)"

definition Complete :: "ServiceListRequest \<Rightarrow> Status \<Rightarrow> ServiceMap \<Rightarrow> event" where
  "Complete req status svcs =
     (if \<not> is_success status \<or> svcs = []
      then ListCallback (callback req) status []
      else ListCallback (callback req) status (Complete_loop (uuids req) svcs []))"

subsection \<open>The manager's methods\<close>

text \<open>
  A method takes the manager and returns it updated, with the events of the call.
  A moved-from \<^verbatim>\<open>std::map\<close> or \<^verbatim>\<open>std::queue\<close> is empty.
\<close>

definition constructor :: RemoteServiceManager where
  "constructor = \<lparr>services = [], pending = [], initialized = False, svc_watcher = None\<rparr>"

text \<open>
  \<^verbatim>\<open>AddService\<close>. The flag \<open>alloc_ok\<close> says whether \<^verbatim>\<open>new RemoteService\<close> gave an
  object; the new record holds the service data it was built from.
\<close>

definition AddService :: "bool \<Rightarrow> ServiceData \<Rightarrow> RemoteServiceManager \<Rightarrow> RemoteServiceManager" where
  "AddService alloc_ok service_data m =
     (let h = range_start service_data in
      case map_find h (services m) of
        Some _ \<Rightarrow> m
      | None \<Rightarrow>
          if \<not> alloc_ok then m
          else m\<lparr>services := map_assign h (RemoteService service_data) (services m)\<rparr>)"

fun ShutDown_loop :: "ServiceMap \<Rightarrow> event list" where
  "ShutDown_loop [] = []"
| "ShutDown_loop (iter # rest) = ShutDown (snd iter) # ShutDown_loop rest"

definition ClearServices :: "RemoteServiceManager \<Rightarrow> RemoteServiceManager \<times> event list" where
  "ClearServices m = (m\<lparr>services := []\<rparr>, ShutDown_loop (services m))"

definition ListServices ::
  "uuid list \<Rightarrow> callback_id \<Rightarrow> RemoteServiceManager \<Rightarrow> RemoteServiceManager \<times> event list" where
  "ListServices us cb m =
     (let request = \<lparr>callback = cb, uuids = us\<rparr> in
      if initialized m then (m, [Complete request Success (services m)])
      else (m\<lparr>pending := pending m @ [request]\<rparr>, []))"

definition FindService :: "handle \<Rightarrow> RemoteServiceManager \<Rightarrow> RemoteService option" where
  "FindService h m = map_find h (services m)"

text \<open>
  Modelled from the spec: \<^verbatim>\<open>set_service_watcher\<close> is defined in the header, which is not
  at hand; it stores the discovery watcher.
\<close>

definition set_service_watcher :: "callback_id \<Rightarrow> RemoteServiceManager \<Rightarrow> RemoteServiceManager" where
  "set_service_watcher watcher m = m\<lparr>svc_watcher := Some watcher\<rparr>"

text \<open>
  \<^verbatim>\<open>OnNotification\<close>. The iterator is a position in the map. \<^verbatim>\<open>ZX_DEBUG_ASSERT\<close> stops
  the process in a build with debug assertions (\<open>dbg\<close>) and is nothing otherwise. The
  first argument of the source has no name and is not read.
\<close>

datatype outcome = Dropped | AssertFailed | Delivered RemoteService

definition OnNotification_iter :: "handle \<Rightarrow> ServiceMap \<Rightarrow> nat" where
  "OnNotification_iter value_handle svcs =
     (let iter = upper_bound value_handle svcs in
      if iter \<noteq> 0 then iter - 1 else iter)"

definition OnNotification ::
  "bool \<Rightarrow> bool \<Rightarrow> handle \<Rightarrow> byte_buffer \<Rightarrow> RemoteServiceManager \<Rightarrow> outcome" where
  "OnNotification dbg ind value_handle val m =
     (if services m = [] then Dropped
      else
        let svc = snd (services m ! OnNotification_iter value_handle (services m)) in
        if dbg \<and> \<not> (handle svc \<le> value_handle) then AssertFailed
        else if value_handle \<le> range_end (info svc) then Delivered svc
        else Dropped)"

text \<open>The loop of the destructor and of \<^verbatim>\<open>init_cb\<close> over the queue of requests.\<close>

fun pending_loop :: "Status \<Rightarrow> ServiceMap \<Rightarrow> ServiceListRequest list \<Rightarrow> event list" where
  "pending_loop status svcs [] = []"
| "pending_loop status svcs (front # rest) =
     Complete front status svcs # pending_loop status svcs rest"

text \<open>
  The destructor: the handler is taken off the client, the services are cleared, and
  every pending request is completed with \<^verbatim>\<open>HostError::kFailed\<close>.
\<close>

definition destructor :: "RemoteServiceManager \<Rightarrow> RemoteServiceManager \<times> event list" where
  "destructor m =
     (let (m1, shut) = ClearServices m;
          status = HostErr kFailed;
          queue = pending m1;
          m2 = m1\<lparr>pending := []\<rparr>
      in (m2, ClientSetNotificationHandler False # shut @ pending_loop status (services m2) queue))"

subsection \<open>The closures handed to the ATT client\<close>

text \<open>
  The client is outside the manager and may outlive it. The world holds the manager
  (\<open>None\<close> after its destructor: the weak pointer \<^verbatim>\<open>self\<close> is then null), the handler
  the client has for notifications, the closure the client holds for the request in
  flight, the trace, and whether debug assertions are compiled in and one has failed.
  A closure is named after the source's variable; the user's completion is inside it.
\<close>

datatype status_cb =
    PrimaryDiscovCb "uuid list" callback_id   \<comment> \<open>\<^verbatim>\<open>primary_discov_cb\<close>\<close>
  | SecondaryDiscovCb callback_id             \<comment> \<open>\<^verbatim>\<open>secondary_discov_cb\<close>\<close>

datatype continuation =
    MtuCallback callback_id "uuid list"       \<comment> \<open>the closure given to \<^verbatim>\<open>ExchangeMTU\<close>\<close>
  | DiscoveryCallbacks status_cb              \<comment> \<open>\<^verbatim>\<open>svc_cb\<close> and the status callback\<close>

record world =
  manager :: "RemoteServiceManager option"
  notification_handler :: bool
  client_cont :: "continuation option"
  trace :: "event list"
  debug_asserts :: bool
  crashed :: bool

definition emit :: "event list \<Rightarrow> world \<Rightarrow> world" where
  "emit es w = w\<lparr>trace := trace w @ es\<rparr>"

text \<open>\<^verbatim>\<open>init_cb\<close> (lines 74 to 90).\<close>

definition init_cb :: "callback_id \<Rightarrow> Status \<Rightarrow> world \<Rightarrow> world" where
  "init_cb user_init_cb status w =
     (case manager w of
        None \<Rightarrow> w
      | Some m \<Rightarrow>
          emit ([InitializedSet, UserInitCallback user_init_cb status]
                @ pending_loop status (services m) (pending m))
            (w\<lparr>manager := Some (m\<lparr>initialized := True, pending := []\<rparr>)\<rparr>))"

text \<open>\<^verbatim>\<open>DiscoverServicesOfKind\<close>: the request goes to the client with both callbacks.\<close>

definition DiscoverServicesOfKind :: "ServiceKind \<Rightarrow> uuid list \<Rightarrow> status_cb \<Rightarrow> world \<Rightarrow> world" where
  "DiscoverServicesOfKind k service_uuids cb w =
     emit [if service_uuids \<noteq> [] then ClientDiscoverServicesWithUuids k service_uuids
           else ClientDiscoverServices k]
       (w\<lparr>client_cont := Some (DiscoveryCallbacks cb)\<rparr>)"

text \<open>\<^verbatim>\<open>svc_cb\<close> (lines 130 to 135).\<close>

definition svc_cb :: "bool \<Rightarrow> ServiceData \<Rightarrow> world \<Rightarrow> world" where
  "svc_cb alloc_ok service_data w =
     (case manager w of
        None \<Rightarrow> w
      | Some m \<Rightarrow> w\<lparr>manager := Some (AddService alloc_ok service_data m)\<rparr>)"

fun watcher_loop :: "callback_id \<Rightarrow> ServiceMap \<Rightarrow> event list" where
  "watcher_loop watcher [] = []"
| "watcher_loop watcher (iter # rest) = WatcherCall watcher (snd iter) # watcher_loop watcher rest"

text \<open>\<^verbatim>\<open>status_cb_wrapper\<close> (lines 148 to 170); its \<^verbatim>\<open>status_cb\<close> is \<^verbatim>\<open>init_cb\<close>.\<close>

definition status_cb_wrapper :: "callback_id \<Rightarrow> Status \<Rightarrow> world \<Rightarrow> world" where
  "status_cb_wrapper user_init_cb status w =
     (case manager w of
        None \<Rightarrow> init_cb user_init_cb (HostErr kFailed) w
      | Some m \<Rightarrow>
          if bt_is_error status then
            (let (m1, shut) = ClearServices m
             in init_cb user_init_cb status (emit shut (w\<lparr>manager := Some m1\<rparr>)))
          else
            (case svc_watcher m of
               Some watcher \<Rightarrow>
                 init_cb user_init_cb status (emit (watcher_loop watcher (services m)) w)
             | None \<Rightarrow> init_cb user_init_cb status w))"

fun protocol_error :: "Status \<Rightarrow> ErrorCode option" where
  "protocol_error (ProtocolErr c) = Some c"
| "protocol_error _ = None"

text \<open>\<^verbatim>\<open>secondary_discov_cb\<close> (lines 179 to 191).\<close>

definition secondary_discov_cb :: "callback_id \<Rightarrow> Status \<Rightarrow> world \<Rightarrow> world" where
  "secondary_discov_cb user_init_cb status w =
     status_cb_wrapper user_init_cb
       (if is_protocol_error status \<and> protocol_error status = Some kUnsupportedGroupType
        then Success else status) w"

text \<open>\<^verbatim>\<open>primary_discov_cb\<close> (lines 172 to 195).\<close>

definition primary_discov_cb :: "uuid list \<Rightarrow> callback_id \<Rightarrow> Status \<Rightarrow> world \<Rightarrow> world" where
  "primary_discov_cb service_uuids user_init_cb status w =
     (if manager w = None \<or> \<not> is_success status
      then status_cb_wrapper user_init_cb status w
      else DiscoverServicesOfKind SECONDARY service_uuids (SecondaryDiscovCb user_init_cb) w)"

definition DiscoverServices :: "uuid list \<Rightarrow> callback_id \<Rightarrow> world \<Rightarrow> world" where
  "DiscoverServices service_uuids user_init_cb w =
     DiscoverServicesOfKind PRIMARY service_uuids (PrimaryDiscovCb service_uuids user_init_cb) w"

text \<open>The closure given to \<^verbatim>\<open>ExchangeMTU\<close> (lines 93 to 107).\<close>

definition mtu_cb :: "callback_id \<Rightarrow> uuid list \<Rightarrow> Status \<Rightarrow> 16 word \<Rightarrow> world \<Rightarrow> world" where
  "mtu_cb user_init_cb svc_uuids status mtu w =
     (case manager w of
        None \<Rightarrow> init_cb user_init_cb (HostErr kFailed) w
      | Some m \<Rightarrow>
          if bt_is_error status then init_cb user_init_cb status w
          else DiscoverServices svc_uuids user_init_cb w)"

definition Initialize :: "callback_id \<Rightarrow> uuid list \<Rightarrow> world \<Rightarrow> world" where
  "Initialize cb svc_uuids w =
     emit [ClientExchangeMTU] (w\<lparr>client_cont := Some (MtuCallback cb svc_uuids)\<rparr>)"

subsection \<open>Runs\<close>

text \<open>
  What can happen to a manager: its owner calls a method or destroys it, and the client
  delivers a notification, answers the MTU exchange, reports a service of the discovery
  in flight or ends that discovery with a status. The client calls a closure only
  while it holds it, and a completion once. After a failed debug assertion nothing runs.
\<close>

datatype input =
    CallInitialize callback_id "uuid list"
  | CallListServices "uuid list" callback_id
  | CallSetServiceWatcher callback_id
  | Destroy
  | ClientNotification bool handle byte_buffer
  | ClientMtuResponse Status "16 word"
  | ClientServiceFound ServiceData bool
  | ClientDiscoveryStatus Status

definition initial :: "bool \<Rightarrow> world" where
  "initial dbg =
     \<lparr>manager = Some constructor, notification_handler = True, client_cont = None,
      trace = [ClientSetNotificationHandler True], debug_asserts = dbg, crashed = False\<rparr>"

fun dispatch :: "input \<Rightarrow> world \<Rightarrow> world" where
  "dispatch (CallInitialize cb us) w =
     (case manager w of None \<Rightarrow> w | Some m \<Rightarrow> Initialize cb us w)"
| "dispatch (CallListServices us cb) w =
     (case manager w of
        None \<Rightarrow> w
      | Some m \<Rightarrow> (let (m1, evs) = ListServices us cb m in emit evs (w\<lparr>manager := Some m1\<rparr>)))"
| "dispatch (CallSetServiceWatcher watcher) w =
     (case manager w of
        None \<Rightarrow> w
      | Some m \<Rightarrow> w\<lparr>manager := Some (set_service_watcher watcher m)\<rparr>)"
| "dispatch Destroy w =
     (case manager w of
        None \<Rightarrow> w
      | Some m \<Rightarrow> emit (snd (destructor m)) (w\<lparr>manager := None, notification_handler := False\<rparr>))"
| "dispatch (ClientNotification ind value_handle val) w =
     (if \<not> notification_handler w then w
      else case manager w of
        None \<Rightarrow> w
      | Some m \<Rightarrow>
          (case OnNotification (debug_asserts w) ind value_handle val m of
             Dropped \<Rightarrow> w
           | AssertFailed \<Rightarrow> w\<lparr>crashed := True\<rparr>
           | Delivered svc \<Rightarrow> emit [HandleNotification svc value_handle val] w))"
| "dispatch (ClientMtuResponse status mtu) w =
     (case client_cont w of
        Some (MtuCallback cb us) \<Rightarrow> mtu_cb cb us status mtu (w\<lparr>client_cont := None\<rparr>)
      | _ \<Rightarrow> w)"
| "dispatch (ClientServiceFound service_data alloc_ok) w =
     (case client_cont w of
        Some (DiscoveryCallbacks cb) \<Rightarrow> svc_cb alloc_ok service_data w
      | _ \<Rightarrow> w)"
| "dispatch (ClientDiscoveryStatus status) w =
     (case client_cont w of
        Some (DiscoveryCallbacks (PrimaryDiscovCb us cb)) \<Rightarrow>
          primary_discov_cb us cb status (w\<lparr>client_cont := None\<rparr>)
      | Some (DiscoveryCallbacks (SecondaryDiscovCb cb)) \<Rightarrow>
          secondary_discov_cb cb status (w\<lparr>client_cont := None\<rparr>)
      | _ \<Rightarrow> w)"

definition step :: "input \<Rightarrow> world \<Rightarrow> world" where
  "step i w = (if crashed w then w else dispatch i w)"

fun run :: "input list \<Rightarrow> world \<Rightarrow> world" where
  "run [] w = w"
| "run (i # is) w = run is (step i w)"

subsection \<open>The catalog invariant and sample data\<close>

text \<open>
  The keys of the map are strictly ascending (so no two entries share a key), and
  every record is stored under its own start handle.
\<close>

definition catalog_inv :: "ServiceMap \<Rightarrow> bool" where
  "catalog_inv svcs =
     (sorted_wrt (<) (map fst svcs) \<and> list_all (\<lambda>e. handle (snd e) = fst e) svcs)"

definition world_inv :: "world \<Rightarrow> bool" where
  "world_inv w = (case manager w of None \<Rightarrow> True | Some m \<Rightarrow> catalog_inv (services m))"

text \<open>A primary service with the given range and UUID, for the concrete instances.\<close>

definition service_data :: "handle \<Rightarrow> handle \<Rightarrow> uuid \<Rightarrow> ServiceData" where
  "service_data lo hi u = \<lparr>kind = PRIMARY, range_start = lo, range_end = hi, type = u\<rparr>"

definition entry :: "handle \<Rightarrow> handle \<Rightarrow> uuid \<Rightarrow> handle \<times> RemoteService" where
  "entry lo hi u = (lo, RemoteService (service_data lo hi u))"

text \<open>The inputs of a discovery that runs to its end after these services were found.\<close>

definition discovery :: "callback_id \<Rightarrow> ServiceData list \<Rightarrow> Status \<Rightarrow> input list" where
  "discovery cb found status =
     [CallInitialize cb [], ClientMtuResponse Success 23]
     @ map (\<lambda>d. ClientServiceFound d True) found
     @ [ClientDiscoveryStatus status]"


definition found_inputs :: "(ServiceData \<times> bool) list \<Rightarrow> input list" where
  "found_inputs ds = map (\<lambda>d. ClientServiceFound (fst d) (snd d)) ds"

text \<open>
  A handle is in the range of a record; and the ranges of a catalog do not overlap:
  every record ends below the start of every later one.
\<close>

definition contains :: "RemoteService \<Rightarrow> handle \<Rightarrow> bool" where
  "contains svc v = (handle svc \<le> v \<and> v \<le> range_end (info svc))"

definition disjoint_ranges :: "ServiceMap \<Rightarrow> bool" where
  "disjoint_ranges svcs = sorted_wrt (\<lambda>a b. range_end (info (snd a)) < fst b) svcs"

section \<open>Properties\<close>

subsection \<open>The loops\<close>

lemma find_uuid: "(find (\<lambda>u. x = u) us = None) = (x \<notin> set us)"
  by (induction us) auto

lemma Complete_loop_filter:
  "Complete_loop us svcs acc =
     acc @ filter (\<lambda>svc. us = [] \<or> uuid svc \<in> set us) (map snd svcs)"
  by (induction svcs arbitrary: acc) (simp_all add: find_uuid)

lemma pending_loop_map:
  "pending_loop status svcs queue = map (\<lambda>req. Complete req status svcs) queue"
  by (induction queue) simp_all

lemma pending_loop_failure:
  "\<not> is_success status \<Longrightarrow>
     pending_loop status svcs queue = map (\<lambda>req. ListCallback (callback req) status []) queue"
  by (induction queue) (simp_all add: Complete_def)

lemma pending_loop_empty_catalog:
  "pending_loop status [] queue = map (\<lambda>req. ListCallback (callback req) status []) queue"
  by (induction queue) (simp_all add: Complete_def)

lemma ShutDown_loop_map: "ShutDown_loop svcs = map (\<lambda>e. ShutDown (snd e)) svcs"
  by (induction svcs) simp_all

lemma watcher_loop_map: "watcher_loop wa svcs = map (\<lambda>e. WatcherCall wa (snd e)) svcs"
  by (induction svcs) simp_all


subsection \<open>The ordered map\<close>

lemma map_find_keys: "(map_find h svcs \<noteq> None) = (h \<in> fst ` set svcs)"
  by (induction svcs) auto

lemma map_assign_keys: "fst ` set (map_assign h svc svcs) = insert h (fst ` set svcs)"
  by (induction svcs) auto

lemma map_assign_sorted:
  "sorted_wrt (<) (map fst svcs) \<Longrightarrow> sorted_wrt (<) (map fst (map_assign h svc svcs))"
proof (induction svcs)
  case Nil
  then show ?case by simp
next
  case (Cons e es)
  have keys: "fst ` set (map_assign h svc es) = insert h (fst ` set es)"
    by (rule map_assign_keys)
  from Cons show ?case
    by (auto simp: keys)
qed

lemma upper_bound_le: "upper_bound v svcs \<le> length svcs"
  by (induction svcs) simp_all

text \<open>The position \<^verbatim>\<open>OnNotification\<close> reads is inside a non-empty map.\<close>

lemma OnNotification_iter_valid:
  "svcs \<noteq> [] \<Longrightarrow> OnNotification_iter v svcs < length svcs"
  using upper_bound_le [of v svcs]
  by (cases svcs) (auto simp: OnNotification_iter_def Let_def)

lemma map_assign_inv:
  "catalog_inv svcs \<Longrightarrow> handle svc = h \<Longrightarrow> catalog_inv (map_assign h svc svcs)"
  unfolding catalog_inv_def
proof (intro conjI)
  assume a: "sorted_wrt (<) (map fst svcs) \<and> list_all (\<lambda>e. handle (snd e) = fst e) svcs"
    and h: "handle svc = h"
  show "sorted_wrt (<) (map fst (map_assign h svc svcs))"
    using a by (simp add: map_assign_sorted)
  from a have "list_all (\<lambda>e. handle (snd e) = fst e) svcs"
    by simp
  then show "list_all (\<lambda>e. handle (snd e) = fst e) (map_assign h svc svcs)"
    using h by (induction svcs) auto
qed

lemma catalog_handles:
  "list_all (\<lambda>e. handle (snd e) = fst e) svcs \<Longrightarrow> map handle (map snd svcs) = map fst svcs"
  by (induction svcs) auto

text \<open>Whatever is picked from a catalog in iteration order has ascending start handles.\<close>

lemma filtered_sorted:
  assumes "catalog_inv svcs"
  shows "sorted_wrt (<) (map handle (filter P (map snd svcs)))"
proof -
  from assms have "sorted_wrt (<) (map handle (map snd svcs))"
    by (simp only: catalog_inv_def catalog_handles)
  then have "sorted_wrt (\<lambda>a b. handle a < handle b) (map snd svcs)"
    by (simp only: sorted_wrt_map)
  then have "sorted_wrt (\<lambda>a b. handle a < handle b) (filter P (map snd svcs))"
    by (rule sorted_wrt_filter)
  then show ?thesis
    by (simp only: sorted_wrt_map)
qed

subsection \<open>Answering a service-list request\<close>

text \<open>
  C9. Completed with success, a request gets exactly the records of the catalog whose
  UUID is one of the request's UUIDs (every record when it has none), in the order of
  the catalog; once the manager is initialized, \<^verbatim>\<open>ListServices\<close> answers in the call
  itself with that list and queues nothing; and in a catalog that satisfies the
  invariant the answer is in ascending order of start handle.
\<close>

theorem ListServices_filter_result:
  "Complete req Success svcs =
     ListCallback (callback req) Success
       (filter (\<lambda>svc. uuids req = [] \<or> uuid svc \<in> set (uuids req)) (map snd svcs))
   \<and> (initialized m \<longrightarrow>
        ListServices us cb m =
          (m, [ListCallback cb Success
                (filter (\<lambda>svc. us = [] \<or> uuid svc \<in> set us) (map snd (services m)))]))
   \<and> (catalog_inv svcs \<longrightarrow>
        sorted_wrt (<)
          (map handle (filter (\<lambda>svc. us = [] \<or> uuid svc \<in> set us) (map snd svcs))))"
proof (intro conjI impI)
  show c: "\<And>req svcs. Complete req Success svcs =
     ListCallback (callback req) Success
       (filter (\<lambda>svc. uuids req = [] \<or> uuid svc \<in> set (uuids req)) (map snd svcs))"
    by (simp add: Complete_def Complete_loop_filter)
  assume "initialized m"
  then show "ListServices us cb m =
          (m, [ListCallback cb Success
                (filter (\<lambda>svc. us = [] \<or> uuid svc \<in> set us) (map snd (services m)))])"
    by (simp add: ListServices_def c)
next
  assume "catalog_inv svcs"
  then show "sorted_wrt (<)
      (map handle (filter (\<lambda>svc. us = [] \<or> uuid svc \<in> set us) (map snd svcs)))"
    by (rule filtered_sorted)
qed

theorem ListServices_filter_result_witness:
  "initialized \<lparr>services = [entry 10 15 1, entry 20 25 2, entry 30 35 3], pending = [],
       initialized = True, svc_watcher = None\<rparr>
   \<and> ListServices [2] 5 \<lparr>services = [entry 10 15 1, entry 20 25 2, entry 30 35 3], pending = [],
       initialized = True, svc_watcher = None\<rparr>
     = (\<lparr>services = [entry 10 15 1, entry 20 25 2, entry 30 35 3], pending = [],
       initialized = True, svc_watcher = None\<rparr>,
        [ListCallback 5 Success [RemoteService (service_data 20 25 2)]])
   \<and> Complete \<lparr>callback = 6, uuids = []\<rparr> Success [entry 10 15 1, entry 20 25 2, entry 30 35 3]
     = ListCallback 6 Success [RemoteService (service_data 10 15 1),
         RemoteService (service_data 20 25 2), RemoteService (service_data 30 35 3)]
   \<and> catalog_inv [entry 10 15 1, entry 20 25 2, entry 30 35 3]
   \<and> sorted_wrt (<) (map handle [RemoteService (service_data 10 15 1),
         RemoteService (service_data 20 25 2), RemoteService (service_data 30 35 3)])"
  using ListServices_filter_result [of "\<lparr>callback = 6, uuids = []\<rparr>"
      "[entry 10 15 1, entry 20 25 2, entry 30 35 3]"
      "\<lparr>services = [entry 10 15 1, entry 20 25 2, entry 30 35 3], pending = [],
       initialized = True, svc_watcher = None\<rparr>" "[2]" 5]
  by (simp add: entry_def service_data_def uuid_def handle_def catalog_inv_def)

subsection \<open>Evaluating a concrete run\<close>

lemmas model_defs =
  step_def initial_def constructor_def emit_def Initialize_def mtu_cb_def init_cb_def
  DiscoverServices_def DiscoverServicesOfKind_def svc_cb_def status_cb_wrapper_def
  primary_discov_cb_def secondary_discov_cb_def bt_is_error_def ListServices_def
  set_service_watcher_def AddService_def ClearServices_def destructor_def Complete_def
  OnNotification_def OnNotification_iter_def handle_def uuid_def
  service_data_def entry_def discovery_def

subsection \<open>After the destructor\<close>

text \<open>Once the manager is gone, no input adds an event or brings it back.\<close>

lemma init_cb_dead: "manager w = None \<Longrightarrow> init_cb cb status w = w"
  by (simp add: init_cb_def)

lemma status_cb_wrapper_dead: "manager w = None \<Longrightarrow> status_cb_wrapper cb status w = w"
  by (simp add: status_cb_wrapper_def init_cb_dead)

lemma dead_step:
  "manager w = None \<Longrightarrow> manager (step i w) = None \<and> trace (step i w) = trace w"
  by (cases i)
    (auto simp: step_def mtu_cb_def svc_cb_def primary_discov_cb_def secondary_discov_cb_def
      init_cb_dead status_cb_wrapper_dead
      split: option.splits continuation.splits status_cb.splits)

lemma dead_run:
  "manager w = None \<Longrightarrow> manager (run is w) = None \<and> trace (run is w) = trace w"
proof (induction "is" arbitrary: w)
  case Nil
  then show ?case by simp
next
  case (Cons i "is")
  from Cons.prems have s: "manager (step i w) = None \<and> trace (step i w) = trace w"
    by (rule dead_step)
  then have "manager (run is (step i w)) = None \<and> trace (run is (step i w)) = trace (step i w)"
    using Cons.IH by blast
  with s show ?case by simp
qed

subsection \<open>Teardown\<close>

lemma destructor_result:
  "destructor m =
     (m\<lparr>services := [], pending := []\<rparr>,
      ClientSetNotificationHandler False # map (\<lambda>e. ShutDown (snd e)) (services m)
        @ map (\<lambda>req. ListCallback (callback req) (HostErr kFailed) []) (pending m))"
  by (simp add: destructor_def ClearServices_def ShutDown_loop_map pending_loop_empty_catalog)

text \<open>
  C7. The destructor first takes the notification handler off the client, then shuts
  down every record of the catalog in order, then completes every pending request, in
  queue order and once each, with \<^verbatim>\<open>HostError::kFailed\<close> and an empty list; it leaves
  the catalog and the queue empty. From then on the manager is gone, the client has no
  handler, and whatever the client or the owner does adds no event: no notification
  is routed.
\<close>

theorem destructor_teardown:
  "fst (destructor m) = m\<lparr>services := [], pending := []\<rparr>
   \<and> snd (destructor m) =
       ClientSetNotificationHandler False # map (\<lambda>e. ShutDown (snd e)) (services m)
         @ map (\<lambda>req. ListCallback (callback req) (HostErr kFailed) []) (pending m)
   \<and> (manager w = Some m \<and> \<not> crashed w \<longrightarrow>
        manager (step Destroy w) = None
        \<and> notification_handler (step Destroy w) = False
        \<and> trace (step Destroy w) = trace w @ snd (destructor m)
        \<and> trace (run is (step Destroy w)) = trace (step Destroy w))"
proof (intro conjI impI)
  show "fst (destructor m) = m\<lparr>services := [], pending := []\<rparr>"
    by (simp add: destructor_result)
  show "snd (destructor m) =
       ClientSetNotificationHandler False # map (\<lambda>e. ShutDown (snd e)) (services m)
         @ map (\<lambda>req. ListCallback (callback req) (HostErr kFailed) []) (pending m)"
    by (simp add: destructor_result)
next
  assume a: "manager w = Some m \<and> \<not> crashed w"
  then show dead: "manager (step Destroy w) = None"
    by (simp add: step_def emit_def)
  from a show "notification_handler (step Destroy w) = False"
    by (simp add: step_def emit_def)
  from a show "trace (step Destroy w) = trace w @ snd (destructor m)"
    by (simp add: step_def emit_def)
  from dead show "trace (run is (step Destroy w)) = trace (step Destroy w)"
    by (simp add: dead_run)
qed


theorem destructor_teardown_witness:
  "manager (run (CallListServices [] 1 # CallListServices [7] 2 # discovery 0 [service_data 10 15 1, service_data 20 25 2] Success) (initial False))
     = Some \<lparr>services = [entry 10 15 1, entry 20 25 2],
         pending = [\<lparr>callback = 1, uuids = []\<rparr>, \<lparr>callback = 2, uuids = [7]\<rparr>],
         initialized = False, svc_watcher = None\<rparr>
   \<and> \<not> crashed (run (CallListServices [] 1 # CallListServices [7] 2 # discovery 0 [service_data 10 15 1, service_data 20 25 2] Success) (initial False))
   \<and> trace (run [ClientNotification False 12 []] (step Destroy (run (CallListServices [] 1 # CallListServices [7] 2 # discovery 0 [service_data 10 15 1, service_data 20 25 2] Success) (initial False))))
     = [ClientSetNotificationHandler True, ClientExchangeMTU, ClientDiscoverServices PRIMARY, ClientDiscoverServices SECONDARY,
        ClientSetNotificationHandler False,
        ShutDown (RemoteService (service_data 10 15 1)), ShutDown (RemoteService (service_data 20 25 2)),
        ListCallback 1 (HostErr kFailed) [], ListCallback 2 (HostErr kFailed) []]"
  using destructor_teardown [of
      "\<lparr>services = [entry 10 15 1, entry 20 25 2],
         pending = [\<lparr>callback = 1, uuids = []\<rparr>, \<lparr>callback = 2, uuids = [7]\<rparr>],
         initialized = False, svc_watcher = None\<rparr>"
      "run (CallListServices [] 1 # CallListServices [7] 2 # discovery 0 [service_data 10 15 1, service_data 20 25 2] Success) (initial False)"
      "[ClientNotification False 12 []]"]
  by (simp add: model_defs)

subsection \<open>A callback that fires after the destructor\<close>

text \<open>
  When the manager is gone, each closure the client may still hold (the MTU callback,
  the service callback, the two discovery completions, and the wrapper and \<^verbatim>\<open>init_cb\<close>
  inside them) returns the world as it found it: no state of the manager is read or
  written, and nothing is called.
\<close>

lemma destroyed_callbacks_do_nothing:
  "manager w = None \<Longrightarrow>
     mtu_cb cb us status mtu w = w
     \<and> primary_discov_cb us cb status w = w
     \<and> secondary_discov_cb cb status w = w
     \<and> status_cb_wrapper cb status w = w
     \<and> init_cb cb status w = w
     \<and> svc_cb alloc_ok sd w = w"
  by (simp add: mtu_cb_def primary_discov_cb_def secondary_discov_cb_def svc_cb_def
      status_cb_wrapper_dead init_cb_dead)

text \<open>
  C3. A request is pending and the manager is destroyed while the MTU exchange, or the
  primary discovery, is in flight; the client then completes what it had in flight. The
  closure that fires builds \<^verbatim>\<open>HostError::kFailed\<close> for the completion and hands it to
  \<^verbatim>\<open>init_cb\<close>, but \<^verbatim>\<open>init_cb\<close> returns at its own check of \<^verbatim>\<open>self\<close> before it reaches the
  user's completion. So the destructor completes the pending request with
  \<^verbatim>\<open>HostError::kFailed\<close>, and the completion of \<^verbatim>\<open>Initialize\<close> is never called, with that
  status or any other; no state of the manager is touched.
\<close>

theorem destroyed_completion_not_called:
  "trace (run [CallListServices [] 1, CallInitialize 0 [], Destroy,
         ClientMtuResponse Success 23] (initial False))
     = [ClientSetNotificationHandler True, ClientExchangeMTU,
        ClientSetNotificationHandler False, ListCallback 1 (HostErr kFailed) []]
   \<and> UserInitCallback 0 (HostErr kFailed)
       \<notin> set (trace (run [CallListServices [] 1, CallInitialize 0 [], Destroy,
         ClientMtuResponse Success 23] (initial False)))
   \<and> manager (run [CallListServices [] 1, CallInitialize 0 [], Destroy,
         ClientMtuResponse Success 23] (initial False)) = None
   \<and> mtu_cb 0 [] Success 23 (run [CallListServices [] 1, CallInitialize 0 [], Destroy]
         (initial False))
     = init_cb 0 (HostErr kFailed) (run [CallListServices [] 1, CallInitialize 0 [], Destroy]
         (initial False))
   \<and> trace (run [CallListServices [] 1, CallInitialize 0 [], ClientMtuResponse Success 23,
         Destroy, ClientDiscoveryStatus Success] (initial False))
     = [ClientSetNotificationHandler True, ClientExchangeMTU, ClientDiscoverServices PRIMARY,
        ClientSetNotificationHandler False, ListCallback 1 (HostErr kFailed) []]
   \<and> UserInitCallback 0 (HostErr kFailed)
       \<notin> set (trace (run [CallListServices [] 1, CallInitialize 0 [],
         ClientMtuResponse Success 23, Destroy, ClientDiscoveryStatus Success] (initial False)))"
  by (simp add: model_defs)

subsection \<open>A discovery that fails\<close>

lemma init_cb_failure:
  "manager w = Some m \<Longrightarrow> \<not> is_success status \<Longrightarrow>
     init_cb cb status w =
       w\<lparr>manager := Some (m\<lparr>initialized := True, pending := []\<rparr>),
         trace := trace w @ [InitializedSet, UserInitCallback cb status]
           @ map (\<lambda>req. ListCallback (callback req) status []) (pending m)\<rparr>"
  by (simp add: init_cb_def emit_def pending_loop_failure)

lemma status_cb_wrapper_failure:
  "manager w = Some m \<Longrightarrow> \<not> is_success status \<Longrightarrow>
     status_cb_wrapper cb status w =
       w\<lparr>manager := Some (m\<lparr>services := [], initialized := True, pending := []\<rparr>),
         trace := trace w @ map (\<lambda>e. ShutDown (snd e)) (services m)
           @ [InitializedSet, UserInitCallback cb status]
           @ map (\<lambda>req. ListCallback (callback req) status []) (pending m)\<rparr>"
  by (simp add: status_cb_wrapper_def bt_is_error_def ClearServices_def emit_def
      init_cb_failure ShutDown_loop_map)

text \<open>
  C5. The primary discovery is in flight, the catalog holds the services found so far
  and the queue the requests made so far, and the client ends the discovery with a
  failure. Then every record of the catalog is shut down and the catalog is empty, the
  flag is set, the user's completion gets the failure status, every pending request
  gets the failure status and an empty list, in queue order, and the client is left
  with no request: the secondary discovery is not started.
\<close>

theorem primary_failure_rollback:
  "manager w = Some m \<Longrightarrow> \<not> crashed w \<Longrightarrow>
   client_cont w = Some (DiscoveryCallbacks (PrimaryDiscovCb us cb)) \<Longrightarrow>
   \<not> is_success status \<Longrightarrow>
     manager (step (ClientDiscoveryStatus status) w)
       = Some (m\<lparr>services := [], initialized := True, pending := []\<rparr>)
     \<and> trace (step (ClientDiscoveryStatus status) w)
       = trace w @ map (\<lambda>e. ShutDown (snd e)) (services m)
           @ [InitializedSet, UserInitCallback cb status]
           @ map (\<lambda>req. ListCallback (callback req) status []) (pending m)
     \<and> client_cont (step (ClientDiscoveryStatus status) w) = None"
  by (simp add: step_def primary_discov_cb_def status_cb_wrapper_failure)

theorem primary_failure_rollback_witness:
  "manager (run (CallListServices [] 1 # CallListServices [2] 2 # CallInitialize 0 [] # ClientMtuResponse Success 23 #
         map (\<lambda>d. ClientServiceFound d True) [service_data 10 15 1, service_data 20 25 2]) (initial False))
     = Some \<lparr>services = [entry 10 15 1, entry 20 25 2],
         pending = [\<lparr>callback = 1, uuids = []\<rparr>, \<lparr>callback = 2, uuids = [2]\<rparr>],
         initialized = False, svc_watcher = None\<rparr>
   \<and> \<not> crashed (run (CallListServices [] 1 # CallListServices [2] 2 # CallInitialize 0 [] # ClientMtuResponse Success 23 #
         map (\<lambda>d. ClientServiceFound d True) [service_data 10 15 1, service_data 20 25 2]) (initial False))
   \<and> client_cont (run (CallListServices [] 1 # CallListServices [2] 2 # CallInitialize 0 [] # ClientMtuResponse Success 23 #
         map (\<lambda>d. ClientServiceFound d True) [service_data 10 15 1, service_data 20 25 2]) (initial False))
     = Some (DiscoveryCallbacks (PrimaryDiscovCb [] 0))
   \<and> \<not> is_success (HostErr kTimedOut)
   \<and> manager (step (ClientDiscoveryStatus (HostErr kTimedOut)) (run (CallListServices [] 1 # CallListServices [2] 2 # CallInitialize 0 [] # ClientMtuResponse Success 23 #
         map (\<lambda>d. ClientServiceFound d True) [service_data 10 15 1, service_data 20 25 2]) (initial False)))
     = Some \<lparr>services = [], pending = [], initialized = True, svc_watcher = None\<rparr>
   \<and> trace (step (ClientDiscoveryStatus (HostErr kTimedOut)) (run (CallListServices [] 1 # CallListServices [2] 2 # CallInitialize 0 [] # ClientMtuResponse Success 23 #
         map (\<lambda>d. ClientServiceFound d True) [service_data 10 15 1, service_data 20 25 2]) (initial False)))
     = [ClientSetNotificationHandler True, ClientExchangeMTU, ClientDiscoverServices PRIMARY,
        ShutDown (RemoteService (service_data 10 15 1)), ShutDown (RemoteService (service_data 20 25 2)),
        InitializedSet, UserInitCallback 0 (HostErr kTimedOut),
        ListCallback 1 (HostErr kTimedOut) [], ListCallback 2 (HostErr kTimedOut) []]"
  using primary_failure_rollback [of
     "run (CallListServices [] 1 # CallListServices [2] 2 # CallInitialize 0 [] # ClientMtuResponse Success 23 #
         map (\<lambda>d. ClientServiceFound d True) [service_data 10 15 1, service_data 20 25 2]) (initial False)"
     "\<lparr>services = [entry 10 15 1, entry 20 25 2],
         pending = [\<lparr>callback = 1, uuids = []\<rparr>, \<lparr>callback = 2, uuids = [2]\<rparr>],
         initialized = False, svc_watcher = None\<rparr>" "[]" 0 "HostErr kTimedOut"]
  by (simp add: model_defs)

subsection \<open>A discovery that succeeds\<close>

lemma Complete_success:
  "Complete req Success svcs =
     ListCallback (callback req) Success
       (filter (\<lambda>svc. uuids req = [] \<or> uuid svc \<in> set (uuids req)) (map snd svcs))"
  by (simp add: Complete_def Complete_loop_filter)

lemma init_cb_alive:
  "manager w = Some m \<Longrightarrow>
     init_cb cb status w =
       w\<lparr>manager := Some (m\<lparr>initialized := True, pending := []\<rparr>),
         trace := trace w @ [InitializedSet, UserInitCallback cb status]
           @ map (\<lambda>req. Complete req status (services m)) (pending m)\<rparr>"
  by (simp add: init_cb_def emit_def pending_loop_map)

lemma status_cb_wrapper_success:
  "manager w = Some m \<Longrightarrow>
     status_cb_wrapper cb Success w =
       w\<lparr>manager := Some (m\<lparr>initialized := True, pending := []\<rparr>),
         trace := trace w
           @ (case svc_watcher m of None \<Rightarrow> []
              | Some wa \<Rightarrow> map (\<lambda>e. WatcherCall wa (snd e)) (services m))
           @ [InitializedSet, UserInitCallback cb Success]
           @ map (\<lambda>req. Complete req Success (services m)) (pending m)\<rparr>"
  by (simp add: status_cb_wrapper_def bt_is_error_def emit_def init_cb_alive watcher_loop_map
      split: option.splits)

text \<open>
  A watcher is registered, one request is pending, and the discovery finds one service
  and succeeds in both phases. The watcher is called before the flag is set, not after.
\<close>

theorem flag_before_watcher_counterexample:
  "trace (run (CallSetServiceWatcher 7 # CallListServices [] 1
        # discovery 0 [service_data 10 15 1] Success @ [ClientDiscoveryStatus Success]) (initial False))
     = [ClientSetNotificationHandler True, ClientExchangeMTU, ClientDiscoverServices PRIMARY,
        ClientDiscoverServices SECONDARY,
        WatcherCall 7 (RemoteService (service_data 10 15 1)),
        InitializedSet, UserInitCallback 0 Success,
        ListCallback 1 Success [RemoteService (service_data 10 15 1)]]
   \<and> WatcherCall 7 (RemoteService (service_data 10 15 1))
       \<in> set (takeWhile (\<lambda>e. e \<noteq> InitializedSet)
           (trace (run (CallSetServiceWatcher 7 # CallListServices [] 1
             # discovery 0 [service_data 10 15 1] Success @ [ClientDiscoveryStatus Success]) (initial False))))
   \<and> WatcherCall 7 (RemoteService (service_data 10 15 1))
       \<notin> set (dropWhile (\<lambda>e. e \<noteq> InitializedSet)
           (trace (run (CallSetServiceWatcher 7 # CallListServices [] 1
             # discovery 0 [service_data 10 15 1] Success @ [ClientDiscoveryStatus Success]) (initial False))))"
  by (simp add: model_defs)

text \<open>
  C2, as the code has it. The secondary discovery is in flight and the client ends it
  with success. Then, in this order: the watcher, when one is registered, is called
  once for every record of the catalog in the order of the catalog; the flag is set;
  the user's completion gets success; and every pending request is completed with
  success, in queue order, each with its own filter applied to the same catalog. A
  request made before the flag was set went to the back of the queue, and in a catalog
  that satisfies the invariant the order of the catalog is ascending in start handle.
\<close>

theorem discovery_success_order:
  "manager w = Some m \<Longrightarrow> \<not> crashed w \<Longrightarrow>
   client_cont w = Some (DiscoveryCallbacks (SecondaryDiscovCb cb)) \<Longrightarrow>
     trace (step (ClientDiscoveryStatus Success) w)
       = trace w
         @ (case svc_watcher m of None \<Rightarrow> []
            | Some wa \<Rightarrow> map (\<lambda>e. WatcherCall wa (snd e)) (services m))
         @ [InitializedSet, UserInitCallback cb Success]
         @ map (\<lambda>req. ListCallback (callback req) Success
                 (filter (\<lambda>svc. uuids req = [] \<or> uuid svc \<in> set (uuids req))
                   (map snd (services m)))) (pending m)
     \<and> manager (step (ClientDiscoveryStatus Success) w)
       = Some (m\<lparr>initialized := True, pending := []\<rparr>)
     \<and> (\<not> initialized m \<longrightarrow>
          ListServices us c m = (m\<lparr>pending := pending m @ [\<lparr>callback = c, uuids = us\<rparr>]\<rparr>, []))
     \<and> (catalog_inv (services m) \<longrightarrow>
          sorted_wrt (<) (map (\<lambda>e. handle (snd e)) (services m)))"
proof (intro conjI impI)
  assume a: "manager w = Some m" "\<not> crashed w"
    "client_cont w = Some (DiscoveryCallbacks (SecondaryDiscovCb cb))"
  then have s: "step (ClientDiscoveryStatus Success) w
      = status_cb_wrapper cb Success (w\<lparr>client_cont := None\<rparr>)"
    by (simp add: step_def secondary_discov_cb_def)
  from a(1) have m: "manager (w\<lparr>client_cont := None\<rparr>) = Some m"
    by simp
  show "trace (step (ClientDiscoveryStatus Success) w)
       = trace w
         @ (case svc_watcher m of None \<Rightarrow> []
            | Some wa \<Rightarrow> map (\<lambda>e. WatcherCall wa (snd e)) (services m))
         @ [InitializedSet, UserInitCallback cb Success]
         @ map (\<lambda>req. ListCallback (callback req) Success
                 (filter (\<lambda>svc. uuids req = [] \<or> uuid svc \<in> set (uuids req))
                   (map snd (services m)))) (pending m)"
    by (simp add: s status_cb_wrapper_success [OF m] Complete_success)
  show "manager (step (ClientDiscoveryStatus Success) w)
       = Some (m\<lparr>initialized := True, pending := []\<rparr>)"
    by (simp add: s status_cb_wrapper_success [OF m])
next
  assume "\<not> initialized m"
  then show "ListServices us c m = (m\<lparr>pending := pending m @ [\<lparr>callback = c, uuids = us\<rparr>]\<rparr>, [])"
    by (simp add: ListServices_def)
next
  assume "catalog_inv (services m)"
  then have sorted: "sorted_wrt (<) (map fst (services m))"
    and stored: "list_all (\<lambda>e. handle (snd e) = fst e) (services m)"
    by (simp_all add: catalog_inv_def)
  from stored have "map handle (map snd (services m)) = map fst (services m)"
    by (rule catalog_handles)
  then have keys: "map (\<lambda>e. handle (snd e)) (services m) = map fst (services m)"
    by (simp add: comp_def)
  show "sorted_wrt (<) (map (\<lambda>e. handle (snd e)) (services m))"
    unfolding keys by (rule sorted)
qed

theorem discovery_success_order_witness:
  "manager (run (CallSetServiceWatcher 7 # CallListServices [] 1 # CallListServices [2] 2
        # discovery 0 [service_data 20 25 2, service_data 10 15 1] Success) (initial False))
     = Some \<lparr>services = [entry 10 15 1, entry 20 25 2],
         pending = [\<lparr>callback = 1, uuids = []\<rparr>, \<lparr>callback = 2, uuids = [2]\<rparr>],
         initialized = False, svc_watcher = Some 7\<rparr>
   \<and> \<not> crashed (run (CallSetServiceWatcher 7 # CallListServices [] 1 # CallListServices [2] 2
        # discovery 0 [service_data 20 25 2, service_data 10 15 1] Success) (initial False))
   \<and> client_cont (run (CallSetServiceWatcher 7 # CallListServices [] 1 # CallListServices [2] 2
        # discovery 0 [service_data 20 25 2, service_data 10 15 1] Success) (initial False))
     = Some (DiscoveryCallbacks (SecondaryDiscovCb 0))
   \<and> catalog_inv [entry 10 15 1, entry 20 25 2]
   \<and> trace (step (ClientDiscoveryStatus Success)
        (run (CallSetServiceWatcher 7 # CallListServices [] 1 # CallListServices [2] 2
          # discovery 0 [service_data 20 25 2, service_data 10 15 1] Success) (initial False)))
     = [ClientSetNotificationHandler True, ClientExchangeMTU, ClientDiscoverServices PRIMARY,
        ClientDiscoverServices SECONDARY,
        WatcherCall 7 (RemoteService (service_data 10 15 1)),
        WatcherCall 7 (RemoteService (service_data 20 25 2)),
        InitializedSet, UserInitCallback 0 Success,
        ListCallback 1 Success [RemoteService (service_data 10 15 1), RemoteService (service_data 20 25 2)],
        ListCallback 2 Success [RemoteService (service_data 20 25 2)]]"
  using discovery_success_order [of
     "run (CallSetServiceWatcher 7 # CallListServices [] 1 # CallListServices [2] 2
        # discovery 0 [service_data 20 25 2, service_data 10 15 1] Success) (initial False)"
     "\<lparr>services = [entry 10 15 1, entry 20 25 2],
         pending = [\<lparr>callback = 1, uuids = []\<rparr>, \<lparr>callback = 2, uuids = [2]\<rparr>],
         initialized = False, svc_watcher = Some 7\<rparr>" 0 "[]" 3]
  by (simp add: model_defs catalog_inv_def)

subsection \<open>Facts about runs\<close>

lemma AddService_others:
  "pending (AddService a sd m) = pending m \<and> initialized (AddService a sd m) = initialized m
   \<and> svc_watcher (AddService a sd m) = svc_watcher m"
  by (simp add: AddService_def Let_def split: option.splits)





lemma initialized_step:
  "manager w = Some m \<Longrightarrow> initialized m \<Longrightarrow> manager (step i w) = Some m' \<Longrightarrow> initialized m'"
  by (cases i)
    (auto simp: step_def Initialize_def emit_def ListServices_def set_service_watcher_def
      mtu_cb_def init_cb_def DiscoverServices_def DiscoverServicesOfKind_def svc_cb_def
      primary_discov_cb_def secondary_discov_cb_def status_cb_wrapper_def ClearServices_def
      AddService_others Let_def
      split: option.splits continuation.splits status_cb.splits outcome.splits if_splits)

lemma initialized_run:
  "manager w = Some m \<Longrightarrow> initialized m \<Longrightarrow> manager (run is w) = Some m' \<Longrightarrow> initialized m'"
proof (induction "is" arbitrary: w m)
  case Nil
  then show ?case by simp
next
  case (Cons i "is")
  show ?case
  proof (cases "manager (step i w)")
    case None
    then have "manager (run is (step i w)) = None"
      by (simp add: dead_run)
    with Cons.prems show ?thesis by simp
  next
    case (Some m1)
    with Cons.prems have "initialized m1"
      by (auto dest: initialized_step)
    with Some Cons.prems show ?thesis
      by (auto dest: Cons.IH)
  qed
qed

subsection \<open>Requests after a discovery that failed\<close>

lemma mtu_failure_step:
  "manager w = Some m \<Longrightarrow> \<not> crashed w \<Longrightarrow> \<not> is_success status \<Longrightarrow>
   client_cont w = Some (MtuCallback cb us) \<Longrightarrow>
     step (ClientMtuResponse status mtu) w =
       w\<lparr>client_cont := None,
         manager := Some (m\<lparr>initialized := True, pending := []\<rparr>),
         trace := trace w @ [InitializedSet, UserInitCallback cb status]
           @ map (\<lambda>req. ListCallback (callback req) status []) (pending m)\<rparr>"
  by (simp add: step_def mtu_cb_def bt_is_error_def init_cb_failure)

lemma not_downgraded:
  "\<not> is_success status \<Longrightarrow> status \<noteq> ProtocolErr kUnsupportedGroupType \<Longrightarrow>
     (if is_protocol_error status \<and> protocol_error status = Some kUnsupportedGroupType
      then Success else status) = status"
  by (cases status) auto

lemma discovery_failure_step:
  "manager w = Some m \<Longrightarrow> \<not> crashed w \<Longrightarrow> \<not> is_success status \<Longrightarrow>
   client_cont w = Some (DiscoveryCallbacks (PrimaryDiscovCb us cb))
     \<or> client_cont w = Some (DiscoveryCallbacks (SecondaryDiscovCb cb))
       \<and> status \<noteq> ProtocolErr kUnsupportedGroupType \<Longrightarrow>
     step (ClientDiscoveryStatus status) w =
       w\<lparr>client_cont := None,
         manager := Some (m\<lparr>services := [], initialized := True, pending := []\<rparr>),
         trace := trace w @ map (\<lambda>e. ShutDown (snd e)) (services m)
           @ [InitializedSet, UserInitCallback cb status]
           @ map (\<lambda>req. ListCallback (callback req) status []) (pending m)\<rparr>"
  by (auto simp: step_def primary_discov_cb_def secondary_discov_cb_def not_downgraded
      status_cb_wrapper_failure)

lemma ListServices_step_initialized:
  "manager w = Some m \<Longrightarrow> \<not> crashed w \<Longrightarrow> initialized m \<Longrightarrow>
     step (CallListServices us c) w =
       w\<lparr>manager := Some m,
         trace := trace w
           @ [ListCallback c Success
               (filter (\<lambda>svc. us = [] \<or> uuid svc \<in> set us) (map snd (services m)))]\<rparr>"
  by (simp add: step_def ListServices_def emit_def Complete_success)

text \<open>
  One request is pending, the primary discovery finds a service and then fails, and a
  second request is made afterwards. The pending request gets the failure status; the
  later one gets success and an empty list, not the failure status.
\<close>

theorem later_query_counterexample:
  "trace (run (CallListServices [] 1 # discovery 0 [service_data 10 15 1] (HostErr kTimedOut)
        @ [CallListServices [] 2]) (initial False))
     = [ClientSetNotificationHandler True, ClientExchangeMTU, ClientDiscoverServices PRIMARY,
        ShutDown (RemoteService (service_data 10 15 1)),
        InitializedSet, UserInitCallback 0 (HostErr kTimedOut),
        ListCallback 1 (HostErr kTimedOut) [], ListCallback 2 Success []]
   \<and> ListCallback 2 (HostErr kTimedOut) []
       \<notin> set (trace (run (CallListServices [] 1 # discovery 0 [service_data 10 15 1] (HostErr kTimedOut)
        @ [CallListServices [] 2]) (initial False)))"
  by (simp add: model_defs)

text \<open>
  C4, as the code has it. The client ends the sequence with a failure: the MTU exchange
  fails, or the primary discovery fails, or the secondary discovery fails with an
  error other than "unsupported group type". Then the flag is set, the user's
  completion gets that status, and every request pending at that time gets that status
  and an empty list, in queue order (after the records were shut down, when it was a
  discovery that failed). The manager keeps no status: whatever happens next, as long as
  the manager lives, a later \<^verbatim>\<open>ListServices\<close> is answered in the call with success and
  the records of the current catalog that pass its filter.
\<close>

theorem abort_resolves_pending:
  assumes alive: "manager w = Some m" "\<not> crashed w"
    and failure: "\<not> is_success status"
    and abort: "client_cont w = Some (MtuCallback cb us) \<and> i = ClientMtuResponse status mtu
      \<or> client_cont w = Some (DiscoveryCallbacks (PrimaryDiscovCb us cb))
        \<and> i = ClientDiscoveryStatus status
      \<or> client_cont w = Some (DiscoveryCallbacks (SecondaryDiscovCb cb))
        \<and> i = ClientDiscoveryStatus status \<and> status \<noteq> ProtocolErr kUnsupportedGroupType"
  shows "trace (step i w)
      = trace w
        @ (if i = ClientMtuResponse status mtu then []
           else map (\<lambda>e. ShutDown (snd e)) (services m))
        @ [InitializedSet, UserInitCallback cb status]
        @ map (\<lambda>req. ListCallback (callback req) status []) (pending m)
    \<and> (manager (run is (step i w)) = Some m' \<and> \<not> crashed (run is (step i w)) \<longrightarrow>
         trace (step (CallListServices us' c) (run is (step i w)))
           = trace (run is (step i w))
             @ [ListCallback c Success
                 (filter (\<lambda>svc. us' = [] \<or> uuid svc \<in> set us') (map snd (services m')))])"
proof -
  from abort have after: "trace (step i w)
      = trace w
        @ (if i = ClientMtuResponse status mtu then []
           else map (\<lambda>e. ShutDown (snd e)) (services m))
        @ [InitializedSet, UserInitCallback cb status]
        @ map (\<lambda>req. ListCallback (callback req) status []) (pending m)
    \<and> (\<exists>m1. manager (step i w) = Some m1 \<and> initialized m1)"
  proof (elim disjE conjE)
    assume "client_cont w = Some (MtuCallback cb us)" "i = ClientMtuResponse status mtu"
    with alive failure show ?thesis
      by (simp add: mtu_failure_step)
  next
    assume "client_cont w = Some (DiscoveryCallbacks (PrimaryDiscovCb us cb))"
      "i = ClientDiscoveryStatus status"
    with alive failure show ?thesis
      by (simp add: discovery_failure_step)
  next
    assume "client_cont w = Some (DiscoveryCallbacks (SecondaryDiscovCb cb))"
      "i = ClientDiscoveryStatus status" "status \<noteq> ProtocolErr kUnsupportedGroupType"
    with alive failure show ?thesis
      by (simp add: discovery_failure_step)
  qed
  then obtain m1 where m1: "manager (step i w) = Some m1" "initialized m1"
    by blast
  have "trace (step (CallListServices us' c) (run is (step i w)))
           = trace (run is (step i w))
             @ [ListCallback c Success
                 (filter (\<lambda>svc. us' = [] \<or> uuid svc \<in> set us') (map snd (services m')))]"
    if later: "manager (run is (step i w)) = Some m'" "\<not> crashed (run is (step i w))"
  proof -
    from m1 later(1) have "initialized m'"
      by (rule initialized_run)
    with later show ?thesis
      by (simp add: ListServices_step_initialized)
  qed
  with after show ?thesis
    by blast
qed

theorem abort_resolves_pending_witness:
  "manager (run (CallListServices [] 1 # discovery 0 [service_data 10 15 1] Success) (initial False))
     = Some \<lparr>services = [entry 10 15 1], pending = [\<lparr>callback = 1, uuids = []\<rparr>],
         initialized = False, svc_watcher = None\<rparr>
   \<and> \<not> crashed (run (CallListServices [] 1 # discovery 0 [service_data 10 15 1] Success) (initial False))
   \<and> \<not> is_success (ProtocolErr kAttributeNotFound)
   \<and> client_cont (run (CallListServices [] 1 # discovery 0 [service_data 10 15 1] Success) (initial False))
     = Some (DiscoveryCallbacks (SecondaryDiscovCb 0))
   \<and> ProtocolErr kAttributeNotFound \<noteq> ProtocolErr kUnsupportedGroupType
   \<and> manager (run [ClientNotification False 12 []] (step (ClientDiscoveryStatus (ProtocolErr kAttributeNotFound))
        (run (CallListServices [] 1 # discovery 0 [service_data 10 15 1] Success) (initial False))))
     = Some \<lparr>services = [], pending = [], initialized = True, svc_watcher = None\<rparr>
   \<and> trace (step (CallListServices [] 2) (run [ClientNotification False 12 []]
        (step (ClientDiscoveryStatus (ProtocolErr kAttributeNotFound))
          (run (CallListServices [] 1 # discovery 0 [service_data 10 15 1] Success) (initial False)))))
     = [ClientSetNotificationHandler True, ClientExchangeMTU, ClientDiscoverServices PRIMARY,
        ClientDiscoverServices SECONDARY, ShutDown (RemoteService (service_data 10 15 1)),
        InitializedSet, UserInitCallback 0 (ProtocolErr kAttributeNotFound),
        ListCallback 1 (ProtocolErr kAttributeNotFound) [], ListCallback 2 Success []]"
  using abort_resolves_pending [of
      "run (CallListServices [] 1 # discovery 0 [service_data 10 15 1] Success) (initial False)"
      "\<lparr>services = [entry 10 15 1], pending = [\<lparr>callback = 1, uuids = []\<rparr>],
         initialized = False, svc_watcher = None\<rparr>"
      "ProtocolErr kAttributeNotFound" 0 "[]" "ClientDiscoveryStatus (ProtocolErr kAttributeNotFound)" 23
      "[ClientNotification False 12 []]"
      "\<lparr>services = [], pending = [], initialized = True, svc_watcher = None\<rparr>" "[]" 2]
  by (simp add: model_defs)

subsection \<open>The secondary discovery\<close>









subsection \<open>The keys of the catalog\<close>

lemma AddService_inv: "catalog_inv (services m) \<Longrightarrow> catalog_inv (services (AddService a sd m))"
  by (simp add: AddService_def Let_def map_assign_inv handle_def split: option.splits)

lemma step_inv: "world_inv w \<Longrightarrow> world_inv (step i w)"
  by (cases i)
    (auto simp: world_inv_def step_def Initialize_def emit_def ListServices_def
      set_service_watcher_def mtu_cb_def init_cb_def DiscoverServices_def
      DiscoverServicesOfKind_def svc_cb_def primary_discov_cb_def secondary_discov_cb_def
      status_cb_wrapper_def ClearServices_def AddService_inv Let_def catalog_inv_def[of "[]"]
      split: option.splits continuation.splits status_cb.splits outcome.splits if_splits)

lemma run_inv: "world_inv w \<Longrightarrow> world_inv (run is w)"
  by (induction "is" arbitrary: w) (simp_all add: step_inv)

lemma initial_inv: "world_inv (initial dbg)"
  by (simp add: world_inv_def initial_def constructor_def catalog_inv_def)

lemma AddService_duplicate:
  "range_start sd \<in> fst ` set (services m) \<Longrightarrow> AddService a sd m = m"
proof -
  assume "range_start sd \<in> fst ` set (services m)"
  then have "map_find (range_start sd) (services m) \<noteq> None"
    by (simp only: map_find_keys)
  then show ?thesis
    by (auto simp: AddService_def Let_def)
qed

lemma duplicate_found_step:
  "manager w = Some m \<Longrightarrow> \<not> crashed w \<Longrightarrow> client_cont w = Some (DiscoveryCallbacks k) \<Longrightarrow>
   range_start sd \<in> fst ` set (services m) \<Longrightarrow>
     step (ClientServiceFound sd a) w = w"
  by (simp add: step_def svc_cb_def AddService_duplicate)

text \<open>
  C8. In every state a run can reach from the constructor, the keys of the catalog are
  strictly ascending, so no two entries share a start handle; every input keeps the
  invariant of the catalog. When the start handle of a service the client reports is
  already a key, \<^verbatim>\<open>AddService\<close> returns the manager as it was (the entry there is
  kept, not overwritten), and the world is as before: the discovery is still in
  flight and nothing is completed.
\<close>

theorem catalog_keys_unique:
  "(manager (run is (initial dbg)) = Some m \<longrightarrow>
      distinct (map fst (services m)) \<and> sorted_wrt (<) (map fst (services m)))
   \<and> (world_inv w \<longrightarrow> world_inv (step i w))
   \<and> (range_start sd \<in> fst ` set (services m') \<longrightarrow> AddService a sd m' = m')
   \<and> (manager w' = Some m' \<and> \<not> crashed w' \<and> client_cont w' = Some (DiscoveryCallbacks k)
        \<and> range_start sd \<in> fst ` set (services m') \<longrightarrow>
        step (ClientServiceFound sd a) w' = w')"
proof (intro conjI impI)
  assume "manager (run is (initial dbg)) = Some m"
  moreover have "world_inv (run is (initial dbg))"
    by (simp add: run_inv initial_inv)
  ultimately have sorted: "sorted_wrt (<) (map fst (services m))"
    by (simp add: world_inv_def catalog_inv_def)
  then show "sorted_wrt (<) (map fst (services m))" .
  from sorted show "distinct (map fst (services m))"
    by (simp add: strict_sorted_iff)
next
  assume "world_inv w"
  then show "world_inv (step i w)"
    by (rule step_inv)
next
  assume "range_start sd \<in> fst ` set (services m')"
  then show "AddService a sd m' = m'"
    by (rule AddService_duplicate)
next
  assume "manager w' = Some m' \<and> \<not> crashed w' \<and> client_cont w' = Some (DiscoveryCallbacks k)
        \<and> range_start sd \<in> fst ` set (services m')"
  then show "step (ClientServiceFound sd a) w' = w'"
    by (simp add: duplicate_found_step)
qed

theorem catalog_keys_unique_witness:
  "manager (run (CallInitialize 0 [] # ClientMtuResponse Success 23
        # found_inputs [(service_data 20 25 2, True), (service_data 10 15 1, True),
            (service_data 10 12 3, True)]) (initial False))
     = Some \<lparr>services = [entry 10 15 1, entry 20 25 2], pending = [],
         initialized = False, svc_watcher = None\<rparr>
   \<and> distinct (map fst [entry 10 15 1, entry 20 25 2])
   \<and> world_inv (run (CallInitialize 0 [] # ClientMtuResponse Success 23
        # found_inputs [(service_data 20 25 2, True), (service_data 10 15 1, True)]) (initial False))
   \<and> world_inv (step (ClientServiceFound (service_data 10 12 3) True)
        (run (CallInitialize 0 [] # ClientMtuResponse Success 23
        # found_inputs [(service_data 20 25 2, True), (service_data 10 15 1, True)]) (initial False)))
   \<and> range_start (service_data 10 12 3) \<in> fst ` set [entry 10 15 1, entry 20 25 2]
   \<and> AddService True (service_data 10 12 3)
        \<lparr>services = [entry 10 15 1, entry 20 25 2], pending = [],
         initialized = False, svc_watcher = None\<rparr>
     = \<lparr>services = [entry 10 15 1, entry 20 25 2], pending = [],
         initialized = False, svc_watcher = None\<rparr>
   \<and> \<not> crashed (run (CallInitialize 0 [] # ClientMtuResponse Success 23
        # found_inputs [(service_data 20 25 2, True), (service_data 10 15 1, True)]) (initial False))
   \<and> client_cont (run (CallInitialize 0 [] # ClientMtuResponse Success 23
        # found_inputs [(service_data 20 25 2, True), (service_data 10 15 1, True)]) (initial False))
     = Some (DiscoveryCallbacks (PrimaryDiscovCb [] 0))
   \<and> step (ClientServiceFound (service_data 10 12 3) True)
        (run (CallInitialize 0 [] # ClientMtuResponse Success 23
        # found_inputs [(service_data 20 25 2, True), (service_data 10 15 1, True)]) (initial False))
     = run (CallInitialize 0 [] # ClientMtuResponse Success 23
        # found_inputs [(service_data 20 25 2, True), (service_data 10 15 1, True)]) (initial False)"
  using catalog_keys_unique [of
      "CallInitialize 0 [] # ClientMtuResponse Success 23
        # found_inputs [(service_data 20 25 2, True), (service_data 10 15 1, True),
            (service_data 10 12 3, True)]" False
      "\<lparr>services = [entry 10 15 1, entry 20 25 2], pending = [],
         initialized = False, svc_watcher = None\<rparr>"
      "run (CallInitialize 0 [] # ClientMtuResponse Success 23
        # found_inputs [(service_data 20 25 2, True), (service_data 10 15 1, True)]) (initial False)"
      "ClientServiceFound (service_data 10 12 3) True"
      "service_data 10 12 3"
      "\<lparr>services = [entry 10 15 1, entry 20 25 2], pending = [],
         initialized = False, svc_watcher = None\<rparr>" True
      "run (CallInitialize 0 [] # ClientMtuResponse Success 23
        # found_inputs [(service_data 20 25 2, True), (service_data 10 15 1, True)]) (initial False)"
      "PrimaryDiscovCb [] 0"]
  by (simp add: model_defs found_inputs_def world_inv_def catalog_inv_def)

subsection \<open>Routing a notification\<close>

lemma upper_bound_takeWhile:
  "upper_bound v svcs = length (takeWhile (\<lambda>e. fst e \<le> v) svcs)"
  by (induction svcs) (auto simp: not_less)

lemma upper_bound_below:
  "i < upper_bound v svcs \<Longrightarrow> fst (svcs ! i) \<le> v"
  unfolding upper_bound_takeWhile
  using nth_mem [of i "takeWhile (\<lambda>e. fst e \<le> v) svcs"]
  by (auto simp: takeWhile_nth dest: set_takeWhileD)

lemma upper_bound_zero:
  "svcs \<noteq> [] \<Longrightarrow> (upper_bound v svcs = 0) = (v < fst (hd svcs))"
  by (cases svcs) auto

lemma upper_bound_above:
  "sorted_wrt (<) (map fst svcs) \<Longrightarrow> upper_bound v svcs \<le> j \<Longrightarrow> j < length svcs \<Longrightarrow>
     v < fst (svcs ! j)"
proof (induction svcs arbitrary: j)
  case Nil
  then show ?case by simp
next
  case (Cons e es)
  show ?case
  proof (cases "v < fst e")
    case True
    show ?thesis
    proof (cases j)
      case 0
      with True show ?thesis by simp
    next
      case (Suc k)
      with Cons.prems have "fst e < fst (es ! k)"
        by auto
      with True Suc show ?thesis by simp
    qed
  next
    case False
    with Cons.prems obtain k where k: "j = Suc k" "upper_bound v es \<le> k" "k < length es"
      by (cases j) auto
    with Cons show ?thesis
      by simp
  qed
qed

text \<open>The selected entry starts at or below the handle exactly when the first entry does.\<close>

lemma OnNotification_iter_key:
  assumes "svcs \<noteq> []"
  shows "(fst (svcs ! OnNotification_iter v svcs) \<le> v) = (fst (hd svcs) \<le> v)"
proof (cases "upper_bound v svcs = 0")
  case True
  with assms show ?thesis
    by (simp add: OnNotification_iter_def hd_conv_nth)
next
  case False
  then have "upper_bound v svcs - 1 < upper_bound v svcs"
    by simp
  then have "fst (svcs ! (upper_bound v svcs - 1)) \<le> v"
    by (rule upper_bound_below)
  moreover from False assms have "fst (hd svcs) \<le> v"
    by (simp add: upper_bound_zero not_less)
  ultimately show ?thesis
    using False by (simp add: OnNotification_iter_def)
qed

text \<open>
  From the first start handle on, the router is right: the record it selects starts at or
  below the handle, and it delivers to that record exactly when the handle is in its
  range.
\<close>

lemma OnNotification_from_first:
  assumes "catalog_inv (services m)" "services m \<noteq> []" "fst (hd (services m)) \<le> v"
  shows "OnNotification dbg ind v val m =
      (let svc = snd (services m ! OnNotification_iter v (services m))
       in if contains svc v then Delivered svc else Dropped)"
proof -
  let ?i = "OnNotification_iter v (services m)"
  from assms(2) have "?i < length (services m)"
    by (rule OnNotification_iter_valid)
  then have "services m ! ?i \<in> set (services m)"
    by simp
  with assms(1) have "handle (snd (services m ! ?i)) = fst (services m ! ?i)"
    by (simp add: catalog_inv_def list_all_iff)
  moreover from assms(2,3) have "fst (services m ! ?i) \<le> v"
    by (simp add: OnNotification_iter_key)
  ultimately show ?thesis
    using assms(2) by (simp add: OnNotification_def contains_def Let_def)
qed

text \<open>
  Below the first start handle the assertion fails in a debug build, and otherwise the
  first record gets the notification unless it ends below the handle.
\<close>

lemma OnNotification_below_first:
  assumes "catalog_inv (services m)" "services m \<noteq> []" "v < fst (hd (services m))"
  shows "OnNotification True ind v val m = AssertFailed"
    and "OnNotification False ind v val m =
      (if v \<le> range_end (info (snd (hd (services m)))) then Delivered (snd (hd (services m)))
       else Dropped)"
proof -
  from assms(2,3) have "upper_bound v (services m) = 0"
    by (simp add: upper_bound_zero)
  then have i: "OnNotification_iter v (services m) = 0"
    by (simp add: OnNotification_iter_def)
  from assms(2) have "hd (services m) \<in> set (services m)"
    by simp
  with assms(1) have "handle (snd (hd (services m))) = fst (hd (services m))"
    by (simp add: catalog_inv_def list_all_iff)
  with assms(3) have "\<not> handle (snd (hd (services m))) \<le> v"
    by simp
  with assms(2) i show "OnNotification True ind v val m = AssertFailed"
    by (simp add: OnNotification_def hd_conv_nth)
  from assms(2) i show "OnNotification False ind v val m =
      (if v \<le> range_end (info (snd (hd (services m)))) then Delivered (snd (hd (services m)))
       else Dropped)"
    by (simp add: OnNotification_def hd_conv_nth)
qed

text \<open>
  When the ranges do not overlap, a handle in the range of a record of the catalog is
  delivered to that record.
\<close>

lemma OnNotification_in_range:
  assumes inv: "catalog_inv (services m)" and dis: "disjoint_ranges (services m)"
    and mem: "(k, svc) \<in> set (services m)" and inside: "contains svc v"
  shows "OnNotification dbg ind v val m = Delivered svc"
proof -
  let ?s = "services m"
  let ?i = "OnNotification_iter v ?s"
  from mem have ne: "?s \<noteq> []"
    by auto
  from mem obtain j where j: "j < length ?s" "?s ! j = (k, svc)"
    by (auto simp: in_set_conv_nth)
  from inv mem have k: "handle svc = k"
    by (auto simp: catalog_inv_def list_all_iff)
  from inv have sorted: "sorted_wrt (<) (map fst ?s)"
    by (simp add: catalog_inv_def)
  have kv: "k \<le> v"
    using inside k by (simp add: contains_def)
  have jub: "j < upper_bound v ?s"
  proof (rule ccontr)
    assume "\<not> j < upper_bound v ?s"
    then have "v < fst (?s ! j)"
      using sorted j(1) by (intro upper_bound_above) simp_all
    with j(2) kv show False by simp
  qed
  then have i: "?i = upper_bound v ?s - 1" and ji: "j \<le> ?i"
    by (simp_all add: OnNotification_iter_def)
  from ne have il: "?i < length ?s"
    by (rule OnNotification_iter_valid)
  from jub i have iv: "fst (?s ! ?i) \<le> v"
    by (intro upper_bound_below) simp
  have "j = ?i"
  proof (rule ccontr)
    assume "j \<noteq> ?i"
    with ji have "j < ?i" by simp
    with dis il have "range_end (info (snd (?s ! j))) < fst (?s ! ?i)"
      by (simp add: disjoint_ranges_def sorted_wrt_iff_nth_less)
    with j(2) have "range_end (info svc) < fst (?s ! ?i)"
      by simp
    also note iv
    also from inside have "v \<le> range_end (info svc)"
      by (simp add: contains_def)
    finally show False
      by simp
  qed
  with j(2) have "snd (?s ! ?i) = svc"
    by simp
  with ne inside show ?thesis
    by (simp add: OnNotification_def contains_def)
qed

text \<open>
  C1. The catalog holds the services with ranges 10 to 15 and 20 to 25, in a build
  without debug assertions. Handle 12 goes to the first service, handle 17 is dropped,
  handle 22 goes to the second; handle 5, which is below every start handle, is not
  dropped: the search gives \<^verbatim>\<open>begin()\<close>, the iterator is not stepped back, and the
  first service, whose end handle 15 is not below 5, gets the notification although
  its range starts at 10.
\<close>

theorem notification_before_first_service:
  "trace (run (discovery 0 [service_data 10 15 1, service_data 20 25 2] Success
        @ [ClientDiscoveryStatus Success, ClientNotification False 12 [1],
           ClientNotification False 17 [2], ClientNotification False 22 [3],
           ClientNotification False 5 [4]]) (initial False))
     = [ClientSetNotificationHandler True, ClientExchangeMTU, ClientDiscoverServices PRIMARY,
        ClientDiscoverServices SECONDARY, InitializedSet, UserInitCallback 0 Success,
        HandleNotification (RemoteService (service_data 10 15 1)) 12 [1],
        HandleNotification (RemoteService (service_data 20 25 2)) 22 [3],
        HandleNotification (RemoteService (service_data 10 15 1)) 5 [4]]
   \<and> OnNotification False False 5 [4]
        \<lparr>services = [entry 10 15 1, entry 20 25 2], pending = [],
          initialized = True, svc_watcher = None\<rparr>
     = Delivered (RemoteService (service_data 10 15 1))
   \<and> \<not> range_start (service_data 10 15 1) \<le> 5"
  by (simp add: model_defs)

text \<open>
  C10. With the same catalog and handle 5, the entry the router selects has start
  handle 10, which is not at most 5: the condition of \<^verbatim>\<open>ZX_DEBUG_ASSERT\<close> is false, and
  in a build with debug assertions the run stops there.
\<close>

theorem notification_assertion_fails:
  "handle (snd ([entry 10 15 1, entry 20 25 2]
       ! OnNotification_iter 5 [entry 10 15 1, entry 20 25 2])) = 10
   \<and> \<not> (10 :: handle) \<le> 5
   \<and> OnNotification True False 5 [4]
        \<lparr>services = [entry 10 15 1, entry 20 25 2], pending = [],
          initialized = True, svc_watcher = None\<rparr>
     = AssertFailed
   \<and> crashed (run (discovery 0 [service_data 10 15 1, service_data 20 25 2] Success
        @ [ClientDiscoveryStatus Success, ClientNotification False 5 [4]]) (initial True))"
  by (simp add: model_defs)

end
